theory Spec2Isabelle
  imports Main "HOL-Library.Word" "HOL-Library.Sublist"
begin

unbundle bit_operations_syntax

section \<open>Errors\<close>

text \<open>
  Every error value that the functions of \<^verbatim>\<open>libcontainer/configs/config.go\<close> build
  is a constructor here; wrapping with \<^verbatim>\<open>%w\<close> keeps the wrapped error as an argument.
  \<open>ErrSyntax\<close> and \<open>ErrRange\<close> are the two errors of \<^verbatim>\<open>strconv.ParseUint\<close>
  (they carry the text that failed to parse); \<open>OtherError\<close> stands for an error made
  outside this file (by a hook or by \<^verbatim>\<open>encoding/json\<close>).
\<close>

datatype error =
    InvalidPolicy string
  | InvalidFlag string
  | ErrSyntax string
  | ErrRange string
  | ValuesLargerThan nat
  | InvalidRange string
  | NoCPUsFound string
  | BadInitial error
  | BadFinal error
  | RunningHook string nat error
  | OtherError string

section \<open>Scheduler attributes\<close>

text \<open>
  \<^verbatim>\<open>specs.Scheduler\<close> (runtime-spec): the policy and the flags are strings, \<^verbatim>\<open>Nice\<close> and
  \<^verbatim>\<open>Priority\<close> are \<^verbatim>\<open>int32\<close>, the three times are \<^verbatim>\<open>uint64\<close>.
\<close>

record Scheduler =
  Policy :: string
  Nice :: "32 word"
  Priority :: "32 word"
  Flags :: "string list"
  Runtime :: "64 word"
  Deadline :: "64 word"
  Period :: "64 word"

text \<open>\<^verbatim>\<open>unix.SchedAttr\<close>: the request structure of \<^verbatim>\<open>sched_setattr(2)\<close>.\<close>

record SchedAttr =
  sa_Size :: "32 word"
  sa_Policy :: "32 word"
  sa_Flags :: "64 word"
  sa_Nice :: "32 word"
  sa_Priority :: "32 word"
  sa_Runtime :: "64 word"
  sa_Deadline :: "64 word"
  sa_Period :: "64 word"
  sa_Util_min :: "32 word"
  sa_Util_max :: "32 word"

text \<open>The policy and flag names of runtime-spec, and the size constant of \<^verbatim>\<open>x/sys/unix\<close>.\<close>

definition SchedOther :: string where "SchedOther = ''SCHED_OTHER''"
definition SchedFIFO :: string where "SchedFIFO = ''SCHED_FIFO''"
definition SchedRR :: string where "SchedRR = ''SCHED_RR''"
definition SchedBatch :: string where "SchedBatch = ''SCHED_BATCH''"
definition SchedISO :: string where "SchedISO = ''SCHED_ISO''"
definition SchedIdle :: string where "SchedIdle = ''SCHED_IDLE''"
definition SchedDeadline :: string where "SchedDeadline = ''SCHED_DEADLINE''"

definition SchedFlagResetOnFork :: string where
  "SchedFlagResetOnFork = ''SCHED_FLAG_RESET_ON_FORK''"
definition SchedFlagReclaim :: string where
  "SchedFlagReclaim = ''SCHED_FLAG_RECLAIM''"
definition SchedFlagDLOverrun :: string where
  "SchedFlagDLOverrun = ''SCHED_FLAG_DL_OVERRUN''"
definition SchedFlagKeepPolicy :: string where
  "SchedFlagKeepPolicy = ''SCHED_FLAG_KEEP_POLICY''"
definition SchedFlagKeepParams :: string where
  "SchedFlagKeepParams = ''SCHED_FLAG_KEEP_PARAMS''"
definition SchedFlagUtilClampMin :: string where
  "SchedFlagUtilClampMin = ''SCHED_FLAG_UTIL_CLAMP_MIN''"
definition SchedFlagUtilClampMax :: string where
  "SchedFlagUtilClampMax = ''SCHED_FLAG_UTIL_CLAMP_MAX''"

definition SizeofSchedAttr :: "32 word" where
  "SizeofSchedAttr = 0x38"

text \<open>The first \<^verbatim>\<open>switch\<close> of \<^verbatim>\<open>ToSchedAttr\<close>; \<open>None\<close> is its \<^verbatim>\<open>default\<close> branch.\<close>

definition policy_switch :: "string \<Rightarrow> 32 word option" where
  "policy_switch p =
     (if p = SchedOther then Some 0
      else if p = SchedFIFO then Some 1
      else if p = SchedRR then Some 2
      else if p = SchedBatch then Some 3
      else if p = SchedISO then Some 4
      else if p = SchedIdle then Some 5
      else if p = SchedDeadline then Some 6
      else None)"

text \<open>The \<^verbatim>\<open>switch\<close> in the loop over the flags: the bit a flag name stands for.\<close>

definition flag_switch :: "string \<Rightarrow> 64 word option" where
  "flag_switch f =
     (if f = SchedFlagResetOnFork then Some 0x01
      else if f = SchedFlagReclaim then Some 0x02
      else if f = SchedFlagDLOverrun then Some 0x04
      else if f = SchedFlagKeepPolicy then Some 0x08
      else if f = SchedFlagKeepParams then Some 0x10
      else if f = SchedFlagUtilClampMin then Some 0x20
      else if f = SchedFlagUtilClampMax then Some 0x40
      else None)"

text \<open>The loop \<^verbatim>\<open>for _, flag := range scheduler.Flags\<close>, with \<^verbatim>\<open>flags\<close> as accumulator.\<close>

fun flags_loop :: "string list \<Rightarrow> 64 word \<Rightarrow> error + 64 word" where
  "flags_loop [] flags = Inr flags"
| "flags_loop (flag # rest) flags =
     (case flag_switch flag of
        None \<Rightarrow> Inl (InvalidFlag flag)
      | Some b \<Rightarrow> flags_loop rest (flags OR b))"

text \<open>The conversion \<^verbatim>\<open>uint32(scheduler.Priority)\<close> of an \<^verbatim>\<open>int32\<close>.\<close>

definition uint32_of_int32 :: "32 word \<Rightarrow> 32 word" where
  "uint32_of_int32 x = word_of_int (sint x)"

definition ToSchedAttr :: "Scheduler \<Rightarrow> error + SchedAttr" where
  "ToSchedAttr scheduler =
     (case policy_switch (Policy scheduler) of
        None \<Rightarrow> Inl (InvalidPolicy (Policy scheduler))
      | Some policy \<Rightarrow>
          (case flags_loop (Flags scheduler) 0 of
             Inl e \<Rightarrow> Inl e
           | Inr flags \<Rightarrow>
               Inr \<lparr> sa_Size = SizeofSchedAttr,
                     sa_Policy = policy,
                     sa_Flags = flags,
                     sa_Nice = Nice scheduler,
                     sa_Priority = uint32_of_int32 (Priority scheduler),
                     sa_Runtime = Runtime scheduler,
                     sa_Deadline = Deadline scheduler,
                     sa_Period = Period scheduler,
                     sa_Util_min = 0,
                     sa_Util_max = 0 \<rparr>))"

text \<open>
  The tables as the specification lists them: the position of a policy name is its code,
  the position of a flag name is the number of its bit.
\<close>

definition spec_policy_names :: "string list" where
  "spec_policy_names =
     [SchedOther, SchedFIFO, SchedRR, SchedBatch, SchedISO, SchedIdle, SchedDeadline]"

definition spec_flag_names :: "string list" where
  "spec_flag_names =
     [SchedFlagResetOnFork, SchedFlagReclaim, SchedFlagDLOverrun, SchedFlagKeepPolicy,
      SchedFlagKeepParams, SchedFlagUtilClampMin, SchedFlagUtilClampMax]"

definition sched_example :: Scheduler where
  "sched_example = \<lparr> Policy = SchedFIFO, Nice = 0, Priority = 10,
     Flags = [SchedFlagReclaim, SchedFlagResetOnFork, SchedFlagReclaim],
     Runtime = 1, Deadline = 2, Period = 3 \<rparr>"

section \<open>CPU sets\<close>

text \<open>
  \<^verbatim>\<open>unix.CPUSet\<close> is an array of 16 machine words of 64 bits (128 bytes, 1024 bits).
  \<^verbatim>\<open>Set\<close> ignores a CPU whose word lies outside the array, \<^verbatim>\<open>Count\<close> adds the
  numbers of one bits of the words.
\<close>

type_synonym CPUSet = "64 word list"

definition cpuSetSize :: nat where
  "cpuSetSize = 16"

definition sizeof_CPUSet :: nat where
  "sizeof_CPUSet = cpuSetSize * 8"

definition new_CPUSet :: CPUSet where
  "new_CPUSet = replicate cpuSetSize 0"

definition cpuBitsIndex :: "nat \<Rightarrow> nat" where
  "cpuBitsIndex cpu = cpu div 64"

definition cpuBitsMask :: "nat \<Rightarrow> 64 word" where
  "cpuBitsMask cpu = push_bit (cpu mod 64) 1"

definition CPUSet_Set :: "CPUSet \<Rightarrow> nat \<Rightarrow> CPUSet" where
  "CPUSet_Set s cpu =
     (let i = cpuBitsIndex cpu
      in if i < length s then s[i := s ! i OR cpuBitsMask cpu] else s)"

definition CPUSet_IsSet :: "CPUSet \<Rightarrow> nat \<Rightarrow> bool" where
  "CPUSet_IsSet s cpu =
     (let i = cpuBitsIndex cpu
      in if i < length s then s ! i AND cpuBitsMask cpu \<noteq> 0 else False)"

definition OnesCount64 :: "64 word \<Rightarrow> nat" where
  "OnesCount64 w = length (filter (bit w) [0..<64])"

definition CPUSet_Count :: "CPUSet \<Rightarrow> nat" where
  "CPUSet_Count s = sum_list (map OnesCount64 s)"

subsection \<open>The string functions of the Go library that \<open>toCPUSet\<close> calls\<close>

text \<open>
  A Go string is a sequence of bytes, here a \<open>string\<close>. \<^verbatim>\<open>strings.Split\<close> with a
  one-byte separator gives one piece more than there are separators.
\<close>

fun Split :: "string \<Rightarrow> char \<Rightarrow> string list" where
  "Split [] sep = [[]]"
| "Split (c # cs) sep =
     (if c = sep then [] # Split cs sep
      else (case Split cs sep of
              [] \<Rightarrow> [[c]]
            | r # rs \<Rightarrow> (c # r) # rs))"

text \<open>
  \<^verbatim>\<open>strings.Cut\<close> at the first separator; \<open>None\<close> is the result \<^verbatim>\<open>found = false\<close>.
\<close>

fun Cut :: "string \<Rightarrow> char \<Rightarrow> (string \<times> string) option" where
  "Cut [] sep = None"
| "Cut (c # cs) sep =
     (if c = sep then Some ([], cs)
      else (case Cut cs sep of
              None \<Rightarrow> None
            | Some (before, after) \<Rightarrow> Some (c # before, after)))"

text \<open>
  \<^verbatim>\<open>strings.TrimSpace\<close> removes the runes of \<^verbatim>\<open>unicode.IsSpace\<close> from both ends.
  These are the UTF-8 encodings of those runes: six of one byte, and U+0085, U+00A0,
  U+1680, U+2000 to U+200A, U+2028, U+2029, U+202F, U+205F and U+3000.
\<close>

definition spaceRunes :: "string list" where
  "spaceRunes =
     [[CHR 0x09], [CHR 0x0A], [CHR 0x0B], [CHR 0x0C], [CHR 0x0D], [CHR 0x20],
      [CHR 0xC2, CHR 0x85], [CHR 0xC2, CHR 0xA0],
      [CHR 0xE1, CHR 0x9A, CHR 0x80],
      [CHR 0xE2, CHR 0x80, CHR 0x80], [CHR 0xE2, CHR 0x80, CHR 0x81],
      [CHR 0xE2, CHR 0x80, CHR 0x82], [CHR 0xE2, CHR 0x80, CHR 0x83],
      [CHR 0xE2, CHR 0x80, CHR 0x84], [CHR 0xE2, CHR 0x80, CHR 0x85],
      [CHR 0xE2, CHR 0x80, CHR 0x86], [CHR 0xE2, CHR 0x80, CHR 0x87],
      [CHR 0xE2, CHR 0x80, CHR 0x88], [CHR 0xE2, CHR 0x80, CHR 0x89],
      [CHR 0xE2, CHR 0x80, CHR 0x8A],
      [CHR 0xE2, CHR 0x80, CHR 0xA8], [CHR 0xE2, CHR 0x80, CHR 0xA9],
      [CHR 0xE2, CHR 0x80, CHR 0xAF],
      [CHR 0xE2, CHR 0x81, CHR 0x9F],
      [CHR 0xE3, CHR 0x80, CHR 0x80]]"

text \<open>The number of bytes of the space rune a string starts with, or ends with; 0 if none.\<close>

definition leadingSpace :: "string \<Rightarrow> nat" where
  "leadingSpace s =
     (case find (\<lambda>p. prefix p s) spaceRunes of None \<Rightarrow> 0 | Some p \<Rightarrow> length p)"

definition trailingSpace :: "string \<Rightarrow> nat" where
  "trailingSpace s =
     (case find (\<lambda>p. suffix p s) spaceRunes of None \<Rightarrow> 0 | Some p \<Rightarrow> length p)"

lemma leadingSpace_le: "leadingSpace s \<le> length s"
  by (auto simp: leadingSpace_def find_Some_iff prefix_def split: option.splits)

lemma trailingSpace_le: "trailingSpace s \<le> length s"
  by (auto simp: trailingSpace_def find_Some_iff suffix_def split: option.splits)

function TrimLeft :: "string \<Rightarrow> string" where
  "TrimLeft s = (if leadingSpace s = 0 then s else TrimLeft (drop (leadingSpace s) s))"
  by pat_completeness auto
termination
proof (relation "measure length")
  show "wf (measure length)" by simp
next
  fix s :: string
  assume "leadingSpace s \<noteq> 0"
  then show "(drop (leadingSpace s) s, s) \<in> measure length"
    using leadingSpace_le [of s] by simp
qed

function TrimRight :: "string \<Rightarrow> string" where
  "TrimRight s =
     (if trailingSpace s = 0 then s else TrimRight (take (length s - trailingSpace s) s))"
  by pat_completeness auto
termination
proof (relation "measure length")
  show "wf (measure length)" by simp
next
  fix s :: string
  assume "trailingSpace s \<noteq> 0"
  then show "(take (length s - trailingSpace s) s, s) \<in> measure length"
    using trailingSpace_le [of s] by simp
qed

declare TrimLeft.simps [simp del] TrimRight.simps [simp del]

definition TrimSpace :: "string \<Rightarrow> string" where
  "TrimSpace s = TrimRight (TrimLeft s)"

text \<open>
  \<^verbatim>\<open>strconv.ParseUint(v, 10, 32)\<close>: the empty string and a byte that is no decimal digit
  are syntax errors; a value above \<open>2 ^ 32 - 1\<close> is a range error, raised at the digit
  that exceeds it.
\<close>

definition maxVal :: nat where
  "maxVal = 2 ^ 32 - 1"

fun ParseUint_loop :: "string \<Rightarrow> string \<Rightarrow> nat \<Rightarrow> error + nat" where
  "ParseUint_loop s0 [] n = Inr n"
| "ParseUint_loop s0 (c # cs) n =
     (if 48 \<le> (of_char c :: nat) \<and> (of_char c :: nat) \<le> 57 then
        (let n1 = n * 10 + (of_char c - 48)
         in if n1 > maxVal then Inl (ErrRange s0) else ParseUint_loop s0 cs n1)
      else Inl (ErrSyntax s0))"

definition ParseUint :: "string \<Rightarrow> error + nat" where
  "ParseUint s = (if s = [] then Inl (ErrSyntax s) else ParseUint_loop s s 0)"

subsection \<open>\<open>toCPUSet\<close> and \<open>ConvertCPUAffinity\<close>\<close>

definition maxCPU :: nat where
  "maxCPU = sizeof_CPUSet * 8"

text \<open>The closure \<^verbatim>\<open>toInt\<close> of \<^verbatim>\<open>toCPUSet\<close>.\<close>

definition toInt :: "string \<Rightarrow> error + nat" where
  "toInt v =
     (case ParseUint v of
        Inl err \<Rightarrow> Inl err
      | Inr ret \<Rightarrow>
          if ret \<ge> maxCPU then Inl (ValuesLargerThan (maxCPU - 1)) else Inr ret)"

text \<open>The loop \<^verbatim>\<open>for i := start; i <= end; i++ { s.Set(i) }\<close>.\<close>

function set_range :: "CPUSet \<Rightarrow> nat \<Rightarrow> nat \<Rightarrow> CPUSet" where
  "set_range s i end = (if i \<le> end then set_range (CPUSet_Set s i) (Suc i) end else s)"
  by pat_completeness auto
termination
  by (relation "measure (\<lambda>(s, i, end). Suc end - i)") auto

declare set_range.simps [simp del]

text \<open>The body of the loop over the pieces, for a trimmed piece that is not empty.\<close>

definition segment :: "CPUSet \<Rightarrow> string \<Rightarrow> error + CPUSet" where
  "segment s r =
     (case Cut r (CHR ''-'') of
        Some (r0, r1) \<Rightarrow>
          (case toInt r0 of
             Inl err \<Rightarrow> Inl err
           | Inr start \<Rightarrow>
               (case toInt r1 of
                  Inl err \<Rightarrow> Inl err
                | Inr end \<Rightarrow>
                    if start > end then Inl (InvalidRange r)
                    else Inr (set_range s start end)))
      | None \<Rightarrow>
          (case toInt r of
             Inl err \<Rightarrow> Inl err
           | Inr val \<Rightarrow> Inr (CPUSet_Set s val)))"

fun segments_loop :: "string list \<Rightarrow> CPUSet \<Rightarrow> error + CPUSet" where
  "segments_loop [] s = Inr s"
| "segments_loop (r # rs) s =
     (let r' = TrimSpace r
      in if r' = [] then segments_loop rs s
         else (case segment s r' of
                 Inl err \<Rightarrow> Inl err
               | Inr s' \<Rightarrow> segments_loop rs s'))"

text \<open>The result \<open>Inr None\<close> is the pair \<^verbatim>\<open>(nil, nil)\<close>: no set and no error.\<close>

definition toCPUSet :: "string \<Rightarrow> error + CPUSet option" where
  "toCPUSet str =
     (if str = [] then Inr None
      else (case segments_loop (Split str (CHR '','')) new_CPUSet of
              Inl err \<Rightarrow> Inl err
            | Inr s \<Rightarrow>
                if CPUSet_Count s = 0 then Inl (NoCPUsFound str) else Inr (Some s)))"

text \<open>\<^verbatim>\<open>specs.CPUAffinity\<close> holds the two texts, \<^verbatim>\<open>configs.CPUAffinity\<close> the two sets.\<close>

record spec_CPUAffinity =
  spec_Initial :: string
  spec_Final :: string

record CPUAffinity =
  Initial :: "CPUSet option"
  Final :: "CPUSet option"

definition ConvertCPUAffinity :: "spec_CPUAffinity option \<Rightarrow> error + CPUAffinity option" where
  "ConvertCPUAffinity sa =
     (case sa of
        None \<Rightarrow> Inr None
      | Some a \<Rightarrow>
          (case toCPUSet (spec_Initial a) of
             Inl err \<Rightarrow> Inl (BadInitial err)
           | Inr initial \<Rightarrow>
               (case toCPUSet (spec_Final a) of
                  Inl err \<Rightarrow> Inl (BadFinal err)
                | Inr final \<Rightarrow>
                    if initial = None \<and> final = None then Inr None
                    else Inr (Some \<lparr> Initial = initial, Final = final \<rparr>))))"

subsection \<open>Notions used to state the properties of the CPU set builder\<close>

text \<open>
  The CPUs of a set, a decimal digit, a text made of decimal digits only, and the
  number such a text denotes.
\<close>

definition cpus :: "CPUSet \<Rightarrow> nat set" where
  "cpus s = {cpu. CPUSet_IsSet s cpu}"

definition isDigit :: "char \<Rightarrow> bool" where
  "isDigit c \<longleftrightarrow> 48 \<le> (of_char c :: nat) \<and> (of_char c :: nat) \<le> 57"

definition decimal_value :: "string \<Rightarrow> nat" where
  "decimal_value v = foldl (\<lambda>n c. n * 10 + (of_char c - 48)) 0 v"

definition decimal :: "string \<Rightarrow> bool" where
  "decimal v \<longleftrightarrow> v \<noteq> [] \<and> (\<forall>c\<in>set v. isDigit c)"

section \<open>Hooks\<close>

text \<open>
  \<^verbatim>\<open>Command\<close>: the timeout is a pointer to a \<^verbatim>\<open>time.Duration\<close>, a number of
  nanoseconds, or \<^verbatim>\<open>nil\<close>. A Go slice is a list; the \<^verbatim>\<open>nil\<close> slice is the empty list.
\<close>

record Command =
  Path :: string
  Args :: "string list"
  Env :: "string list"
  Dir :: string
  Timeout :: "int option"

text \<open>
  A \<^verbatim>\<open>Hook\<close> is a \<^verbatim>\<open>FuncHook\<close>, which holds a Go function, or a \<^verbatim>\<open>CommandHook\<close>,
  which holds a pointer to a \<^verbatim>\<open>Command\<close> (the model leaves out the \<^verbatim>\<open>nil\<close> pointer).
  The type \<open>'c\<close> is what a \<^verbatim>\<open>CommandHook\<close> holds: the \<open>Command\<close> itself where
  nothing is written through the pointer, an address of a store of commands in
  \<^verbatim>\<open>SetDefaultEnv\<close>, which writes through it. The type \<open>'s\<close> is the argument
  \<^verbatim>\<open>*specs.State\<close>, which every hook receives as it is. A Go function acts on the world
  around it, of type \<open>'w\<close>, and returns an error or \<^verbatim>\<open>nil\<close>.
\<close>

datatype ('c, 's, 'w) Hook =
    FuncHook "'s \<Rightarrow> 'w \<Rightarrow> error option \<times> 'w"
  | CommandHook 'c

type_synonym HookName = string

type_synonym ('c, 's, 'w) HookList = "('c, 's, 'w) Hook list"

text \<open>The map \<^verbatim>\<open>Hooks\<close>; a \<^verbatim>\<open>nil\<close> map reads as the empty map.\<close>

type_synonym ('c, 's, 'w) Hooks = "HookName \<rightharpoonup> ('c, 's, 'w) Hook list"

definition Prestart :: HookName where "Prestart = ''prestart''"
definition CreateRuntime :: HookName where "CreateRuntime = ''createRuntime''"
definition CreateContainer :: HookName where "CreateContainer = ''createContainer''"
definition StartContainer :: HookName where "StartContainer = ''startContainer''"
definition Poststart :: HookName where "Poststart = ''poststart''"
definition Poststop :: HookName where "Poststop = ''poststop''"

definition KnownHookNames :: "string list" where
  "KnownHookNames =
     [Prestart, CreateRuntime, CreateContainer, StartContainer, Poststart, Poststop]"

text \<open>The index expression \<^verbatim>\<open>hooks[name]\<close>: an absent name gives the \<^verbatim>\<open>nil\<close> list.\<close>

definition hooks_index :: "('c, 's, 'w) Hooks \<Rightarrow> HookName \<Rightarrow> ('c, 's, 'w) Hook list" where
  "hooks_index hooks name = (case hooks name of None \<Rightarrow> [] | Some list \<Rightarrow> list)"

subsection \<open>Running hooks\<close>

text \<open>
  The method \<^verbatim>\<open>Run\<close> of a hook. \<^verbatim>\<open>FuncHook.Run\<close> calls the function.
  \<^verbatim>\<open>Command.Run\<close> starts a process and waits for it; the process is not part of the
  model, and \<^verbatim>\<open>Command.Run\<close> is the parameter \<open>cmdRun\<close>.
\<close>

definition Hook_Run ::
  "('c \<Rightarrow> 's \<Rightarrow> 'w \<Rightarrow> error option \<times> 'w) \<Rightarrow> ('c, 's, 'w) Hook \<Rightarrow> 's \<Rightarrow> 'w
     \<Rightarrow> error option \<times> 'w" where
  "Hook_Run cmdRun h state w =
     (case h of FuncHook run \<Rightarrow> run state w | CommandHook c \<Rightarrow> cmdRun c state w)"

text \<open>The loop \<^verbatim>\<open>for i, h := range list\<close> of \<^verbatim>\<open>Hooks.Run\<close>, from the index \<open>i\<close> on.\<close>

fun run_loop ::
  "('c \<Rightarrow> 's \<Rightarrow> 'w \<Rightarrow> error option \<times> 'w) \<Rightarrow> HookName \<Rightarrow> nat \<Rightarrow> ('c, 's, 'w) Hook list
     \<Rightarrow> 's \<Rightarrow> 'w \<Rightarrow> error option \<times> 'w" where
  "run_loop cmdRun name i [] state w = (None, w)"
| "run_loop cmdRun name i (h # list) state w =
     (case Hook_Run cmdRun h state w of
        (Some err, w') \<Rightarrow> (Some (RunningHook name i err), w')
      | (None, w') \<Rightarrow> run_loop cmdRun name (Suc i) list state w')"

definition Hooks_Run ::
  "('c \<Rightarrow> 's \<Rightarrow> 'w \<Rightarrow> error option \<times> 'w) \<Rightarrow> ('c, 's, 'w) Hooks \<Rightarrow> HookName
     \<Rightarrow> 's \<Rightarrow> 'w \<Rightarrow> error option \<times> 'w" where
  "Hooks_Run cmdRun hooks name state w =
     run_loop cmdRun name 0 (hooks_index hooks name) state w"

subsection \<open>The default environment\<close>

text \<open>
  \<^verbatim>\<open>SetDefaultEnv\<close> assigns to \<^verbatim>\<open>ch.Env\<close>, a field of the \<^verbatim>\<open>Command\<close> that the hook
  points to. The commands live in a store, and a \<^verbatim>\<open>CommandHook\<close> holds an address.
\<close>

type_synonym addr = nat

type_synonym store = "addr \<Rightarrow> Command"

fun SetDefaultEnv :: "(addr, 's, 'w) Hook list \<Rightarrow> string list \<Rightarrow> store \<Rightarrow> store" where
  "SetDefaultEnv [] env mem = mem"
| "SetDefaultEnv (h # hooks) env mem =
     (case h of
        CommandHook ch \<Rightarrow>
          if length (Env (mem ch)) = 0
          then SetDefaultEnv hooks env (mem(ch := (mem ch)\<lparr>Env := env\<rparr>))
          else SetDefaultEnv hooks env mem
      | FuncHook run \<Rightarrow> SetDefaultEnv hooks env mem)"

text \<open>A hook with the command it points to in place of the address.\<close>

definition deref :: "store \<Rightarrow> (addr, 's, 'w) Hook \<Rightarrow> (Command, 's, 'w) Hook" where
  "deref mem h = (case h of FuncHook run \<Rightarrow> FuncHook run | CommandHook ch \<Rightarrow> CommandHook (mem ch))"

subsection \<open>Serialization\<close>

text \<open>
  \<^verbatim>\<open>MarshalJSON\<close> hands a map of six members to \<^verbatim>\<open>json.Marshal\<close>, and
  \<^verbatim>\<open>UnmarshalJSON\<close> receives a map from \<^verbatim>\<open>json.Unmarshal\<close>. The JSON text between them
  is the work of \<^verbatim>\<open>encoding/json\<close>; the model takes the written object to be the list
  of its members, a name and the list of command records each (\<^verbatim>\<open>null\<close>, written for
  a \<^verbatim>\<open>nil\<close> slice, is the empty list).
\<close>

type_synonym 'c hooks_object = "(string \<times> 'c list) list"

text \<open>The warning that \<^verbatim>\<open>logrus.Warnf\<close> writes for a hook that is no \<^verbatim>\<open>CommandHook\<close>.\<close>

definition skip_warning :: string where
  "skip_warning = ''cannot serialize hook of type configs.FuncHook, skipping''"

text \<open>
  The closure \<^verbatim>\<open>serialize\<close>: the loop over the hooks, with the result slice and the
  log of warnings written so far.
\<close>

fun serialize :: "('c, 's, 'w) Hook list \<Rightarrow> 'c list \<Rightarrow> string list \<Rightarrow> 'c list \<times> string list" where
  "serialize [] serializableHooks log = (serializableHooks, log)"
| "serialize (hook # hooks) serializableHooks log =
     (case hook of
        CommandHook chook \<Rightarrow> serialize hooks (serializableHooks @ [chook]) log
      | FuncHook run \<Rightarrow> serialize hooks serializableHooks (log @ [skip_warning]))"

text \<open>
  The six calls of \<^verbatim>\<open>serialize\<close> run in the order of the map literal;
  \<^verbatim>\<open>json.Marshal\<close> writes the members of a map sorted by name and does not fail
  on strings, numbers and slices of them, so the error of \<^verbatim>\<open>MarshalJSON\<close> is \<^verbatim>\<open>nil\<close>.
  The result is the written object, the error and the log.
\<close>

definition MarshalJSON ::
  "('c, 's, 'w) Hooks \<Rightarrow> string list \<Rightarrow> 'c hooks_object \<times> error option \<times> string list" where
  "MarshalJSON hooks log =
     (let (prestart, log1) = serialize (hooks_index hooks Prestart) [] log;
          (createRuntime, log2) = serialize (hooks_index hooks CreateRuntime) [] log1;
          (createContainer, log3) = serialize (hooks_index hooks CreateContainer) [] log2;
          (startContainer, log4) = serialize (hooks_index hooks StartContainer) [] log3;
          (poststart, log5) = serialize (hooks_index hooks Poststart) [] log4;
          (poststop, log6) = serialize (hooks_index hooks Poststop) [] log5
      in ([(''createContainer'', createContainer),
           (''createRuntime'', createRuntime),
           (''poststart'', poststart),
           (''poststop'', poststop),
           (''prestart'', prestart),
           (''startContainer'', startContainer)],
          None, log6))"

text \<open>The inner loop of \<^verbatim>\<open>UnmarshalJSON\<close>: \<^verbatim>\<open>(*hooks)[n] = append((*hooks)[n], h)\<close>.\<close>

fun append_loop :: "HookName \<Rightarrow> 'c list \<Rightarrow> ('c, 's, 'w) Hooks \<Rightarrow> ('c, 's, 'w) Hooks" where
  "append_loop n [] hooks = hooks"
| "append_loop n (h # commandHooks) hooks =
     append_loop n commandHooks (hooks(n \<mapsto> hooks_index hooks n @ [CommandHook h]))"

text \<open>
  The loop over the decoded map \<^verbatim>\<open>state\<close>, given as the list of its entries in the
  order in which the loop visits them.
\<close>

fun unmarshal_loop :: "'c hooks_object \<Rightarrow> ('c, 's, 'w) Hooks \<Rightarrow> ('c, 's, 'w) Hooks" where
  "unmarshal_loop [] hooks = hooks"
| "unmarshal_loop ((n, commandHooks) # state) hooks =
     (if length commandHooks = 0 then unmarshal_loop state hooks
      else unmarshal_loop state (append_loop n commandHooks (hooks(n \<mapsto> []))))"

text \<open>
  \<^verbatim>\<open>UnmarshalJSON\<close>, from the result of \<^verbatim>\<open>json.Unmarshal(b, &state)\<close>: on an error
  the registry stays as it was, otherwise it is built anew from the empty map.
\<close>

definition UnmarshalJSON ::
  "('c, 's, 'w) Hooks \<Rightarrow> error + 'c hooks_object \<Rightarrow> error option \<times> ('c, 's, 'w) Hooks" where
  "UnmarshalJSON hooks decoded =
     (case decoded of
        Inl err \<Rightarrow> (Some err, hooks)
      | Inr state \<Rightarrow> (None, unmarshal_loop state Map.empty))"

text \<open>
  What \<^verbatim>\<open>json.Unmarshal\<close> makes of a written object whose names differ from each other:
  a map with the same members; the loop may visit them in any order.
\<close>

definition decodes_to :: "'c hooks_object \<Rightarrow> 'c hooks_object \<Rightarrow> bool" where
  "decodes_to obj state \<longleftrightarrow> distinct (map fst state) \<and> set state = set obj"

subsection \<open>Notions used to state the properties of the hooks\<close>

text \<open>The commands of the command hooks of a list, in order.\<close>

fun command_hooks :: "('c, 's, 'w) Hook list \<Rightarrow> 'c list" where
  "command_hooks [] = []"
| "command_hooks (CommandHook c # hooks) = c # command_hooks hooks"
| "command_hooks (FuncHook run # hooks) = command_hooks hooks"

fun is_CommandHook :: "('c, 's, 'w) Hook \<Rightarrow> bool" where
  "is_CommandHook (CommandHook c) = True"
| "is_CommandHook (FuncHook run) = False"

text \<open>The world after the hooks of a list have run one after the other.\<close>

fun world_after ::
  "('c \<Rightarrow> 's \<Rightarrow> 'w \<Rightarrow> error option \<times> 'w) \<Rightarrow> ('c, 's, 'w) Hook list \<Rightarrow> 's \<Rightarrow> 'w \<Rightarrow> 'w" where
  "world_after cmdRun [] state w = w"
| "world_after cmdRun (h # list) state w =
     world_after cmdRun list state (snd (Hook_Run cmdRun h state w))"

text \<open>The error, if any, of the hook at index \<open>i\<close> when the hooks before it have run.\<close>

definition result_at ::
  "('c \<Rightarrow> 's \<Rightarrow> 'w \<Rightarrow> error option \<times> 'w) \<Rightarrow> ('c, 's, 'w) Hook list \<Rightarrow> 's \<Rightarrow> 'w \<Rightarrow> nat
     \<Rightarrow> error option" where
  "result_at cmdRun list state w i =
     fst (Hook_Run cmdRun (list ! i) state (world_after cmdRun (take i list) state w))"

text \<open>A registry written and read back, the loop visiting the members as written.\<close>

definition roundtrip :: "('c, 's, 'w) Hooks \<Rightarrow> ('c, 's, 'w) Hooks" where
  "roundtrip hooks = snd (UnmarshalJSON Map.empty (Inr (fst (MarshalJSON hooks []))))"

section \<open>Properties of the scheduler translation\<close>

lemmas sched_names = SchedOther_def SchedFIFO_def SchedRR_def SchedBatch_def SchedISO_def
  SchedIdle_def SchedDeadline_def

lemmas flag_names = SchedFlagResetOnFork_def SchedFlagReclaim_def SchedFlagDLOverrun_def
  SchedFlagKeepPolicy_def SchedFlagKeepParams_def SchedFlagUtilClampMin_def
  SchedFlagUtilClampMax_def

lemma uint32_of_int32_id: "uint32_of_int32 x = x"
  by (simp add: uint32_of_int32_def)

lemma policy_switch_None: "policy_switch p = None \<longleftrightarrow> p \<notin> set spec_policy_names"
  by (simp add: policy_switch_def spec_policy_names_def)

lemma policy_switch_nth:
  "k < 7 \<Longrightarrow> policy_switch (spec_policy_names ! k) = Some (of_nat k)"
proof -
  assume "k < 7"
  then have "k \<in> {0, 1, 2, 3, 4, 5, 6}" by auto
  then show ?thesis
    by (auto simp: policy_switch_def spec_policy_names_def sched_names)
qed

lemma flag_switch_None: "flag_switch f = None \<longleftrightarrow> f \<notin> set spec_flag_names"
  by (simp add: flag_switch_def spec_flag_names_def)

lemma flag_switch_nth:
  "k < 7 \<Longrightarrow> flag_switch (spec_flag_names ! k) = Some (2 ^ k)"
proof -
  assume "k < 7"
  then have "k \<in> {0, 1, 2, 3, 4, 5, 6}" by auto
  then show ?thesis
    by (auto simp: flag_switch_def spec_flag_names_def flag_names)
qed

lemma distinct_spec_flag_names: "distinct spec_flag_names"
  by (simp add: spec_flag_names_def flag_names)

lemma flag_switch_Some:
  "flag_switch f = Some b \<Longrightarrow> \<exists>k<7. f = spec_flag_names ! k \<and> b = 2 ^ k"
proof -
  assume a: "flag_switch f = Some b"
  then have "f \<in> set spec_flag_names"
    using flag_switch_None [of f] by auto
  then obtain k where k: "k < length spec_flag_names" "f = spec_flag_names ! k"
    by (auto simp: in_set_conv_nth)
  then have "k < 7" by (simp add: spec_flag_names_def)
  with a k flag_switch_nth [of k] show ?thesis by auto
qed

lemma flags_loop_invalid:
  "find (\<lambda>f. f \<notin> set spec_flag_names) fs = Some f \<Longrightarrow> flags_loop fs acc = Inl (InvalidFlag f)"
proof (induction fs arbitrary: acc)
  case Nil
  then show ?case by simp
next
  case (Cons g gs)
  show ?case
  proof (cases "flag_switch g")
    case None
    then have "g \<notin> set spec_flag_names" by (simp add: flag_switch_None)
    with Cons.prems have "f = g" by simp
    with None show ?thesis by simp
  next
    case (Some b)
    then have "g \<in> set spec_flag_names" using flag_switch_None [of g] by auto
    with Cons Some show ?thesis by simp
  qed
qed

lemma flags_loop_valid:
  "set fs \<subseteq> set spec_flag_names \<Longrightarrow>
   \<exists>w. flags_loop fs acc = Inr w \<and>
       (\<forall>n. bit w n \<longleftrightarrow> bit acc n \<or> (n < 7 \<and> spec_flag_names ! n \<in> set fs))"
proof (induction fs arbitrary: acc)
  case Nil
  then show ?case by simp
next
  case (Cons g gs)
  from Cons.prems have "flag_switch g \<noteq> None" by (simp add: flag_switch_None)
  then obtain b where b: "flag_switch g = Some b" by auto
  then obtain k where k: "k < 7" "g = spec_flag_names ! k" "b = 2 ^ k"
    using flag_switch_Some by blast
  from Cons.prems have "set gs \<subseteq> set spec_flag_names" by simp
  from Cons.IH [OF this, of "acc OR b"] obtain w where
    w: "flags_loop gs (acc OR b) = Inr w"
       "\<forall>n. bit w n \<longleftrightarrow> bit (acc OR b) n \<or> (n < 7 \<and> spec_flag_names ! n \<in> set gs)"
    by blast
  have bitb: "bit b n \<longleftrightarrow> n = k" for n
    using k by (auto simp: bit_simps)
  have inj: "n < 7 \<Longrightarrow> spec_flag_names ! n = g \<longleftrightarrow> n = k" for n
    using k distinct_spec_flag_names
    by (auto simp: nth_eq_iff_index_eq spec_flag_names_def)
  show ?case
    using w b k bitb inj by (auto simp: bit_simps)
qed


text \<open>
  Claim C1. \<open>ToSchedAttr\<close> translates by a fixed table. A policy name outside the table
  is an error that carries the name. With a policy of the table, the first flag name
  outside the flag table is an error that carries that flag name. Otherwise the result
  has the size constant \<open>SizeofSchedAttr\<close>, the policy code is the position of the name
  in the list normal/other, FIFO, round-robin, batch, iso, idle, deadline (0 to 6), bit \<open>n\<close>
  of the flags is set exactly when the \<open>n\<close>-th flag name of the list reset-on-fork,
  reclaim, deadline-overrun, keep-policy, keep-params, util-clamp-min, util-clamp-max
  occurs among the flags (so the flags are the bitwise OR of 0x01 to 0x40 and depend
  only on which names occur, not on their order or number), and nice, priority,
  runtime, deadline and period are those of the input (the priority keeps its 32 bits
  under the conversion to \<^verbatim>\<open>uint32\<close>).
\<close>

theorem ToSchedAttr_table:
  "(Policy s \<notin> set spec_policy_names \<longrightarrow>
      ToSchedAttr s = Inl (InvalidPolicy (Policy s)))
   \<and> (\<forall>f. Policy s \<in> set spec_policy_names \<and>
          find (\<lambda>g. g \<notin> set spec_flag_names) (Flags s) = Some f \<longrightarrow>
          ToSchedAttr s = Inl (InvalidFlag f))
   \<and> (\<forall>k<7. Policy s = spec_policy_names ! k \<and> set (Flags s) \<subseteq> set spec_flag_names \<longrightarrow>
         (\<exists>a. ToSchedAttr s = Inr a
            \<and> sa_Size a = SizeofSchedAttr
            \<and> sa_Policy a = of_nat k
            \<and> (\<forall>n. bit (sa_Flags a) n \<longleftrightarrow> n < 7 \<and> spec_flag_names ! n \<in> set (Flags s))
            \<and> sa_Nice a = Nice s
            \<and> sa_Priority a = Priority s
            \<and> sa_Runtime a = Runtime s
            \<and> sa_Deadline a = Deadline s
            \<and> sa_Period a = Period s))"
proof (intro conjI allI impI)
  assume "Policy s \<notin> set spec_policy_names"
  then have "policy_switch (Policy s) = None" by (simp add: policy_switch_None)
  then show "ToSchedAttr s = Inl (InvalidPolicy (Policy s))"
    by (simp add: ToSchedAttr_def)
next
  fix f
  assume a: "Policy s \<in> set spec_policy_names \<and>
    find (\<lambda>g. g \<notin> set spec_flag_names) (Flags s) = Some f"
  then have "policy_switch (Policy s) \<noteq> None" by (simp add: policy_switch_None)
  then obtain p where "policy_switch (Policy s) = Some p" by auto
  moreover from a have "flags_loop (Flags s) 0 = Inl (InvalidFlag f)"
    by (simp add: flags_loop_invalid)
  ultimately show "ToSchedAttr s = Inl (InvalidFlag f)"
    by (simp add: ToSchedAttr_def)
next
  fix k :: nat
  assume k: "k < 7"
    and a: "Policy s = spec_policy_names ! k \<and> set (Flags s) \<subseteq> set spec_flag_names"
  from k a have p: "policy_switch (Policy s) = Some (of_nat k)"
    by (simp add: policy_switch_nth)
  from a obtain w where w: "flags_loop (Flags s) 0 = Inr w"
    "\<forall>n. bit w n \<longleftrightarrow> bit (0::64 word) n \<or> (n < 7 \<and> spec_flag_names ! n \<in> set (Flags s))"
    using flags_loop_valid [of "Flags s" 0] by blast
  show "\<exists>a. ToSchedAttr s = Inr a
            \<and> sa_Size a = SizeofSchedAttr
            \<and> sa_Policy a = of_nat k
            \<and> (\<forall>n. bit (sa_Flags a) n \<longleftrightarrow> n < 7 \<and> spec_flag_names ! n \<in> set (Flags s))
            \<and> sa_Nice a = Nice s
            \<and> sa_Priority a = Priority s
            \<and> sa_Runtime a = Runtime s
            \<and> sa_Deadline a = Deadline s
            \<and> sa_Period a = Period s"
    using p w by (simp add: ToSchedAttr_def uint32_of_int32_id)
qed

theorem ToSchedAttr_table_witness:
  "ToSchedAttr (sched_example\<lparr>Policy := ''SCHED_FAST''\<rparr>) = Inl (InvalidPolicy ''SCHED_FAST'')
   \<and> ToSchedAttr (sched_example\<lparr>Flags := [SchedFlagReclaim, ''NO_SUCH_FLAG'']\<rparr>)
       = Inl (InvalidFlag ''NO_SUCH_FLAG'')
   \<and> (\<exists>a. ToSchedAttr sched_example = Inr a \<and> sa_Size a = 0x38 \<and> sa_Policy a = 1
        \<and> sa_Flags a = 0x03 \<and> sa_Priority a = 10 \<and> sa_Period a = 3)"
proof -
  let ?s1 = "sched_example\<lparr>Policy := ''SCHED_FAST''\<rparr>"
  let ?s2 = "sched_example\<lparr>Flags := [SchedFlagReclaim, ''NO_SUCH_FLAG'']\<rparr>"
  have h1: "Policy ?s1 \<notin> set spec_policy_names"
    by (simp add: sched_example_def spec_policy_names_def sched_names)
  have h2: "Policy ?s2 \<in> set spec_policy_names \<and>
      find (\<lambda>g. g \<notin> set spec_flag_names) (Flags ?s2) = Some ''NO_SUCH_FLAG''"
    by (simp add: sched_example_def spec_policy_names_def spec_flag_names_def
        sched_names flag_names)
  have h3: "(1::nat) < 7 \<and> Policy sched_example = spec_policy_names ! 1
      \<and> set (Flags sched_example) \<subseteq> set spec_flag_names"
    by (simp add: sched_example_def spec_policy_names_def spec_flag_names_def)
  from ToSchedAttr_table [of ?s1] h1
  have c1: "ToSchedAttr ?s1 = Inl (InvalidPolicy ''SCHED_FAST'')"
    by (simp add: sched_example_def)
  from ToSchedAttr_table [of ?s2] h2
  have c2: "ToSchedAttr ?s2 = Inl (InvalidFlag ''NO_SUCH_FLAG'')"
    by blast
  from ToSchedAttr_table [of sched_example] h3
  obtain a where a: "ToSchedAttr sched_example = Inr a" "sa_Size a = SizeofSchedAttr"
    "sa_Policy a = of_nat 1"
    "\<forall>n. bit (sa_Flags a) n \<longleftrightarrow> n < 7 \<and> spec_flag_names ! n \<in> set (Flags sched_example)"
    "sa_Priority a = Priority sched_example" "sa_Period a = Period sched_example"
    by blast
  have "sa_Flags a = 0x03"
  proof (rule bit_eqI)
    fix n :: nat
    have names: "n < 7 \<and> spec_flag_names ! n \<in> set (Flags sched_example) \<longleftrightarrow> n = 0 \<or> n = 1"
    proof -
      have "n \<in> {0, 1, 2, 3, 4, 5, 6} \<or> 7 \<le> n" by auto
      then show ?thesis
        by (auto simp: sched_example_def spec_flag_names_def flag_names)
    qed
    have three: "bit (0x03 :: 64 word) n \<longleftrightarrow> n = 0 \<or> n = 1"
    proof -
      have "(0x03 :: 64 word) = 2 ^ 0 OR 2 ^ 1" by simp
      then show ?thesis by (simp only: bit_or_iff bit_exp_iff) auto
    qed
    show "bit (sa_Flags a) n \<longleftrightarrow> bit (0x03 :: 64 word) n"
      using a(4) names three by simp
  qed
  with a c1 c2 show ?thesis
    by (auto simp: SizeofSchedAttr_def sched_example_def)
qed

section \<open>Properties of the CPU set builder\<close>

lemma and_mask_bit: "k < 64 \<Longrightarrow> (w :: 64 word) AND push_bit k 1 \<noteq> 0 \<longleftrightarrow> bit w k"
proof -
  assume k: "k < 64"
  have "(w AND push_bit k 1 = 0) \<longleftrightarrow> \<not> bit w k"
  proof
    assume "w AND push_bit k 1 = 0"
    then have "\<not> bit (w AND push_bit k 1) k" by simp
    then show "\<not> bit w k" using k by (simp add: bit_simps)
  next
    assume "\<not> bit w k"
    then show "w AND push_bit k 1 = 0"
      by (intro bit_eqI) (auto simp: bit_simps)
  qed
  then show ?thesis by simp
qed

lemma IsSet_iff:
  "CPUSet_IsSet s cpu \<longleftrightarrow> cpu div 64 < length s \<and> bit (s ! (cpu div 64)) (cpu mod 64)"
  using and_mask_bit [of "cpu mod 64" "s ! (cpu div 64)"]
  by (auto simp: CPUSet_IsSet_def cpuBitsIndex_def cpuBitsMask_def Let_def)

lemma length_Set [simp]: "length (CPUSet_Set s cpu) = length s"
  by (simp add: CPUSet_Set_def Let_def)

lemma div_mod_eq_iff: "(i::nat) div 64 = j div 64 \<and> i mod 64 = j mod 64 \<longleftrightarrow> i = j"
  by (metis div_mult_mod_eq)

lemma IsSet_Set:
  "CPUSet_IsSet (CPUSet_Set s cpu) i \<longleftrightarrow>
     CPUSet_IsSet s i \<or> (i = cpu \<and> cpu div 64 < length s)"
proof (cases "cpu div 64 < length s")
  case False
  then show ?thesis by (simp add: CPUSet_Set_def cpuBitsIndex_def Let_def)
next
  case True
  have m: "bit (cpuBitsMask cpu) b \<longleftrightarrow> b = cpu mod 64" for b
    by (auto simp: cpuBitsMask_def bit_simps)
  show ?thesis
  proof (cases "i div 64 = cpu div 64")
    case same: True
    with True show ?thesis
      using div_mod_eq_iff [of i cpu]
      by (auto simp: IsSet_iff CPUSet_Set_def cpuBitsIndex_def Let_def bit_or_iff m)
  next
    case False
    with True show ?thesis
      by (auto simp: IsSet_iff CPUSet_Set_def cpuBitsIndex_def Let_def)
  qed
qed

lemma cpus_Set:
  "cpus (CPUSet_Set s cpu) = (if cpu div 64 < length s then insert cpu (cpus s) else cpus s)"
  by (auto simp: cpus_def IsSet_Set)

lemma cpus_new: "cpus new_CPUSet = {}"
  by (simp add: cpus_def IsSet_iff new_CPUSet_def)

lemma length_new: "length new_CPUSet = 16"
  by (simp add: new_CPUSet_def cpuSetSize_def)

lemma OnesCount64_0: "OnesCount64 w = 0 \<longleftrightarrow> w = 0"
proof
  assume "OnesCount64 w = 0"
  then have z: "\<forall>n<64. \<not> bit w n"
    by (auto simp: OnesCount64_def filter_empty_conv)
  show "w = 0"
  proof (rule bit_eqI)
    fix n
    show "bit w n \<longleftrightarrow> bit (0 :: 64 word) n"
      using z bit_imp_le_length [of w n] by (cases "n < 64") auto
  qed
next
  assume "w = 0"
  then show "OnesCount64 w = 0" by (simp add: OnesCount64_def)
qed

lemma Count_0: "CPUSet_Count s = 0 \<longleftrightarrow> (\<forall>w\<in>set s. w = 0)"
  by (simp add: CPUSet_Count_def OnesCount64_0)

lemma cpus_empty: "cpus s = {} \<longleftrightarrow> (\<forall>w\<in>set s. w = 0)"
proof
  assume e: "cpus s = {}"
  show "\<forall>w\<in>set s. w = 0"
  proof
    fix w assume "w \<in> set s"
    then obtain j where j: "j < length s" "s ! j = w" by (auto simp: in_set_conv_nth)
    show "w = 0"
    proof (rule bit_eqI)
      fix n
      show "bit w n \<longleftrightarrow> bit (0 :: 64 word) n"
      proof (cases "n < 64")
        case True
        have "\<not> CPUSet_IsSet s (j * 64 + n)" using e by (auto simp: cpus_def)
        with True j show ?thesis by (simp add: IsSet_iff)
      next
        case False
        then show ?thesis using bit_imp_le_length [of w n] by auto
      qed
    qed
  qed
next
  assume "\<forall>w\<in>set s. w = 0"
  then have "\<And>j. j < length s \<Longrightarrow> s ! j = 0" by simp
  then show "cpus s = {}" by (auto simp: cpus_def IsSet_iff)
qed

lemma Count_0_cpus: "CPUSet_Count s = 0 \<longleftrightarrow> cpus s = {}"
  by (simp add: Count_0 cpus_empty)

lemma length_set_range [simp]: "length (set_range s i e) = length s"
proof (induction s i e rule: set_range.induct)
  case (1 s i e)
  show ?case
  proof (cases "i \<le> e")
    case True
    with 1 show ?thesis by (subst set_range.simps) simp
  next
    case False
    then show ?thesis by (subst set_range.simps) simp
  qed
qed

lemma cpus_set_range:
  "e div 64 < length s \<Longrightarrow> cpus (set_range s i e) = cpus s \<union> {i..e}"
proof (induction s i e rule: set_range.induct)
  case (1 s i e)
  show ?case
  proof (cases "i \<le> e")
    case True
    then have "i div 64 \<le> e div 64" by (simp add: div_le_mono)
    with 1 True have "cpus (set_range (CPUSet_Set s i) (Suc i) e) = insert i (cpus s) \<union> {Suc i..e}"
      by (simp add: cpus_Set)
    moreover have "insert i (cpus s) \<union> {Suc i..e} = cpus s \<union> {i..e}"
      using True by auto
    ultimately show ?thesis
      using True by (subst set_range.simps) simp
  next
    case False
    then show ?thesis by (subst set_range.simps) simp
  qed
qed

lemma Split_no_sep: "sep \<notin> set s \<Longrightarrow> Split s sep = [s]"
  by (induction s) auto

lemma Split_not_Nil: "Split s sep \<noteq> []"
  by (induction s) (auto split: list.splits)

lemma Cut_None: "Cut s sep = None \<longleftrightarrow> sep \<notin> set s"
  by (induction s) (auto split: option.splits)

lemma Cut_append: "sep \<notin> set b \<Longrightarrow> Cut (b @ sep # a) sep = Some (b, a)"
  by (induction b) auto

lemma Cut_Some: "Cut s sep = Some (b, a) \<Longrightarrow> s = b @ sep # a \<and> sep \<notin> set b"
  by (induction s arbitrary: b) (auto split: if_splits option.splits)

lemma spaceRunes_ends:
  "p \<in> set spaceRunes \<Longrightarrow> p \<noteq> [] \<and> \<not> isDigit (hd p) \<and> \<not> isDigit (last p)"
  by (auto simp: spaceRunes_def isDigit_def)

lemma leadingSpace_digit: "s \<noteq> [] \<Longrightarrow> isDigit (hd s) \<Longrightarrow> leadingSpace s = 0"
proof -
  assume s: "s \<noteq> []" "isDigit (hd s)"
  have "find (\<lambda>p. prefix p s) spaceRunes = None"
  proof (rule ccontr)
    assume "find (\<lambda>p. prefix p s) spaceRunes \<noteq> None"
    then obtain p where "p \<in> set spaceRunes" "prefix p s"
      by (auto simp: find_None_iff)
    moreover then have "p \<noteq> []" "\<not> isDigit (hd p)" using spaceRunes_ends by auto
    ultimately show False using s by (auto simp: prefix_def)
  qed
  then show ?thesis by (simp add: leadingSpace_def)
qed

lemma trailingSpace_digit: "s \<noteq> [] \<Longrightarrow> isDigit (last s) \<Longrightarrow> trailingSpace s = 0"
proof -
  assume s: "s \<noteq> []" "isDigit (last s)"
  have "find (\<lambda>p. suffix p s) spaceRunes = None"
  proof (rule ccontr)
    assume "find (\<lambda>p. suffix p s) spaceRunes \<noteq> None"
    then obtain p where "p \<in> set spaceRunes" "suffix p s"
      by (auto simp: find_None_iff)
    moreover then have "p \<noteq> []" "\<not> isDigit (last p)" using spaceRunes_ends by auto
    ultimately show False using s by (auto simp: suffix_def)
  qed
  then show ?thesis by (simp add: trailingSpace_def)
qed

lemma TrimSpace_digit_ends:
  "s \<noteq> [] \<Longrightarrow> isDigit (hd s) \<Longrightarrow> isDigit (last s) \<Longrightarrow> TrimSpace s = s"
  by (simp add: TrimSpace_def TrimLeft.simps [of s] TrimRight.simps [of s]
      leadingSpace_digit trailingSpace_digit)

lemma TrimSpace_Nil: "TrimSpace [] = []"
  by (simp add: TrimSpace_def TrimLeft.simps [of "[]"] TrimRight.simps [of "[]"]
      leadingSpace_def trailingSpace_def spaceRunes_def)

lemma ParseUint_loop_decimal:
  "\<forall>c\<in>set cs. isDigit c \<Longrightarrow> n \<le> maxVal \<Longrightarrow>
   ParseUint_loop s0 cs n =
     (let v = foldl (\<lambda>n c. n * 10 + (of_char c - 48)) n cs
      in if v \<le> maxVal then Inr v else Inl (ErrRange s0))"
proof (induction cs arbitrary: n)
  case Nil
  then show ?case by simp
next
  case (Cons c cs)
  let ?f = "\<lambda>n c. n * 10 + (of_char c - 48 :: nat)"
  have mono: "m \<le> foldl ?f m xs" for m xs
  proof (induction xs arbitrary: m)
    case Nil then show ?case by simp
  next
    case (Cons x xs)
    have "m \<le> m * 10 + (of_char x - 48)" by simp
    also have "\<dots> \<le> foldl ?f (m * 10 + (of_char x - 48)) xs" by (rule Cons.IH)
    finally show ?case by simp
  qed
  from Cons.prems have d: "isDigit c" and ds: "\<forall>c\<in>set cs. isDigit c" by auto
  show ?case
  proof (cases "?f n c > maxVal")
    case True
    then have "foldl ?f (?f n c) cs > maxVal" using mono [of "?f n c" cs] by linarith
    with True d show ?thesis by (simp add: isDigit_def Let_def)
  next
    case False
    then have "?f n c \<le> maxVal" by simp
    from Cons.IH [OF ds this] False d show ?thesis by (simp add: isDigit_def Let_def)
  qed
qed

lemma ParseUint_decimal:
  "decimal v \<Longrightarrow>
   ParseUint v = (if decimal_value v \<le> maxVal then Inr (decimal_value v) else Inl (ErrRange v))"
  using ParseUint_loop_decimal [of v 0 v]
  by (simp add: decimal_def ParseUint_def decimal_value_def Let_def)

lemma ParseUint_not_decimal: "\<not> decimal v \<Longrightarrow> \<exists>e. ParseUint v = Inl e"
proof -
  have loop: "\<not> (\<forall>c\<in>set cs. isDigit c) \<Longrightarrow> \<exists>e. ParseUint_loop s0 cs n = Inl e" for cs s0 n
    by (induction cs arbitrary: n) (auto simp: isDigit_def Let_def)
  assume "\<not> decimal v"
  then show ?thesis using loop [of v v 0] by (auto simp: decimal_def ParseUint_def)
qed

lemma maxCPU_1024: "maxCPU = 1024"
  by (simp add: maxCPU_def sizeof_CPUSet_def cpuSetSize_def)

lemma toInt_decimal:
  "decimal v \<Longrightarrow>
   toInt v = (if decimal_value v < maxCPU then Inr (decimal_value v)
              else if decimal_value v \<le> maxVal then Inl (ValuesLargerThan (maxCPU - 1))
              else Inl (ErrRange v))"
  by (simp add: toInt_def ParseUint_decimal maxCPU_1024 maxVal_def)

lemma toInt_Inr: "toInt v = Inr n \<Longrightarrow> decimal v \<and> n = decimal_value v \<and> n < maxCPU"
proof -
  assume a: "toInt v = Inr n"
  have "decimal v"
  proof (rule ccontr)
    assume "\<not> decimal v"
    then obtain e where "ParseUint v = Inl e" using ParseUint_not_decimal by blast
    with a show False by (simp add: toInt_def)
  qed
  with a show ?thesis by (auto simp: toInt_decimal split: if_splits)
qed

lemma minus_not_digit: "\<not> isDigit (CHR ''-'')" and comma_not_digit: "\<not> isDigit (CHR '','')"
  by (simp_all add: isDigit_def)

lemma decimal_no_minus: "decimal v \<Longrightarrow> CHR ''-'' \<notin> set v"
  using minus_not_digit by (auto simp: decimal_def)

lemma decimal_no_comma: "decimal v \<Longrightarrow> CHR '','' \<notin> set v"
  using comma_not_digit by (auto simp: decimal_def)

lemma set_range_single: "set_range s a a = CPUSet_Set s a"
  by (subst set_range.simps, subst set_range.simps) simp

lemma segment_scalar:
  "Cut r (CHR ''-'') = None \<Longrightarrow>
   segment s r = (case toInt r of Inl err \<Rightarrow> Inl err | Inr val \<Rightarrow> Inr (CPUSet_Set s val))"
  by (simp add: segment_def)

lemma segment_range:
  "Cut r (CHR ''-'') = Some (r0, r1) \<Longrightarrow> toInt r0 = Inr a \<Longrightarrow> toInt r1 = Inr b \<Longrightarrow>
   segment s r = (if a > b then Inl (InvalidRange r) else Inr (set_range s a b))"
  by (simp add: segment_def)

lemma segment_range_bad_start:
  "Cut r (CHR ''-'') = Some (r0, r1) \<Longrightarrow> toInt r0 = Inl e \<Longrightarrow> segment s r = Inl e"
  by (simp add: segment_def)

lemma segment_range_bad_end:
  "Cut r (CHR ''-'') = Some (r0, r1) \<Longrightarrow> toInt r0 = Inr a \<Longrightarrow> toInt r1 = Inl e \<Longrightarrow>
   segment s r = Inl e"
  by (simp add: segment_def)

lemma toInt_bound: "toInt v = Inr n \<Longrightarrow> n < 1024"
  using toInt_Inr [of v n] by (simp add: maxCPU_1024)

text \<open>A piece that is accepted adds a non-empty interval of CPUs and removes none.\<close>

lemma segment_Inr:
  assumes "segment s r = Inr s'" and "length s = cpuSetSize"
  shows "length s' = length s \<and> (\<exists>a b. a \<le> b \<and> b < maxCPU \<and> cpus s' = cpus s \<union> {a..b})"
proof (cases "Cut r (CHR ''-'')")
  case None
  with assms obtain v where v: "toInt r = Inr v" "s' = CPUSet_Set s v"
    by (auto simp: segment_def split: sum.splits)
  then have "v < 1024" using toInt_bound by blast
  then have "v div 64 < length s" using assms(2) by (simp add: cpuSetSize_def)
  with v have "cpus s' = cpus s \<union> {v..v}" by (simp add: cpus_Set)
  with v \<open>v < 1024\<close> show ?thesis by (auto simp: maxCPU_1024 simp del: atLeastAtMost_singleton)
next
  case (Some p)
  obtain r0 r1 where p: "p = (r0, r1)" by (cases p)
  with Some assms obtain a b where ab: "toInt r0 = Inr a" "toInt r1 = Inr b"
    "a \<le> b" "s' = set_range s a b"
    by (auto simp: segment_def split: sum.splits if_splits)
  then have "b < 1024" using toInt_bound by blast
  then have "b div 64 < length s" using assms(2) by (simp add: cpuSetSize_def)
  with ab have "cpus s' = cpus s \<union> {a..b}" by (simp add: cpus_set_range)
  with ab \<open>b < 1024\<close> show ?thesis by (auto simp: maxCPU_1024)
qed

lemma segment_Inl_not_NoCPUs: "segment s r \<noteq> Inl (NoCPUsFound x)"
proof -
  have p: "ParseUint_loop s0 cs n \<noteq> Inl (NoCPUsFound x)" for s0 cs n
    by (induction cs arbitrary: n) (auto simp: Let_def)
  have t: "toInt v \<noteq> Inl (NoCPUsFound x)" for v
    using p [of v v 0] by (auto simp: toInt_def ParseUint_def split: sum.splits)
  show ?thesis
    using t by (auto simp: segment_def split: option.splits sum.splits)
qed

lemma segments_loop_Inr:
  "segments_loop rs s = Inr s' \<Longrightarrow> length s = cpuSetSize \<Longrightarrow>
   length s' = length s \<and> cpus s \<subseteq> cpus s' \<and>
   ((\<exists>r\<in>set rs. TrimSpace r \<noteq> []) \<longrightarrow> cpus s' \<noteq> {})"
proof (induction rs arbitrary: s)
  case Nil
  then show ?case by simp
next
  case (Cons r rs)
  show ?case
  proof (cases "TrimSpace r = []")
    case True
    with Cons show ?thesis by simp
  next
    case False
    with Cons.prems obtain s1 where s1: "segment s (TrimSpace r) = Inr s1"
      "segments_loop rs s1 = Inr s'"
      by (auto simp: Let_def split: sum.splits)
    from segment_Inr [OF s1(1) Cons.prems(2)] obtain a b where
      l: "length s1 = length s" and ab: "a \<le> b" "cpus s1 = cpus s \<union> {a..b}" by blast
    from Cons.IH [OF s1(2)] l Cons.prems(2)
    have "length s' = length s1" "cpus s1 \<subseteq> cpus s'" by auto
    with l ab show ?thesis by auto
  qed
qed

lemma segments_loop_Inl_not_NoCPUs: "segments_loop rs s \<noteq> Inl (NoCPUsFound x)"
  by (induction rs arbitrary: s) (auto simp: Let_def segment_Inl_not_NoCPUs split: sum.splits)

lemma segments_loop_blank:
  "\<forall>r\<in>set rs. TrimSpace r = [] \<Longrightarrow> segments_loop rs s = Inr s"
  by (induction rs) auto

lemma segments_loop_skip:
  "segments_loop rs s = segments_loop (filter (\<lambda>r. TrimSpace r \<noteq> []) rs) s"
  by (induction rs arbitrary: s) (auto simp: Let_def split: sum.splits)

lemma toCPUSet_Inr_None: "toCPUSet str = Inr None \<longleftrightarrow> str = []"
  by (auto simp: toCPUSet_def split: sum.splits)

lemma toCPUSet_NoCPUs:
  assumes "str \<noteq> []"
  shows "toCPUSet str = Inl (NoCPUsFound str) \<longleftrightarrow>
         (\<forall>r\<in>set (Split str (CHR '','')). TrimSpace r = [])"
proof
  assume a: "toCPUSet str = Inl (NoCPUsFound str)"
  with assms obtain s where s: "segments_loop (Split str (CHR '','')) new_CPUSet = Inr s"
    "CPUSet_Count s = 0"
    using segments_loop_Inl_not_NoCPUs
    by (auto simp: toCPUSet_def split: sum.splits if_splits)
  have "length new_CPUSet = cpuSetSize" by (simp add: new_CPUSet_def)
  from segments_loop_Inr [OF s(1) this] s(2)
  show "\<forall>r\<in>set (Split str (CHR '','')). TrimSpace r = []"
    by (auto simp: Count_0_cpus)
next
  assume "\<forall>r\<in>set (Split str (CHR '','')). TrimSpace r = []"
  then have "segments_loop (Split str (CHR '','')) new_CPUSet = Inr new_CPUSet"
    by (rule segments_loop_blank)
  with assms show "toCPUSet str = Inl (NoCPUsFound str)"
    by (simp add: toCPUSet_def Count_0_cpus cpus_new)
qed

lemma toCPUSet_Some: "toCPUSet str = Inr (Some s) \<Longrightarrow> length s = cpuSetSize \<and> cpus s \<noteq> {}"
proof -
  assume a: "toCPUSet str = Inr (Some s)"
  then have l: "segments_loop (Split str (CHR '','')) new_CPUSet = Inr s" and c: "CPUSet_Count s \<noteq> 0"
    by (auto simp: toCPUSet_def split: sum.splits if_splits)
  have "length new_CPUSet = cpuSetSize" by (simp add: new_CPUSet_def)
  from segments_loop_Inr [OF l this] c show ?thesis
    by (simp add: Count_0_cpus new_CPUSet_def)
qed

text \<open>A text of one piece that needs no trimming.\<close>

lemma toCPUSet_one_segment:
  assumes "r \<noteq> []" and "CHR '','' \<notin> set r" and "TrimSpace r = r"
  shows "toCPUSet r =
    (case segment new_CPUSet r of
       Inl err \<Rightarrow> Inl err
     | Inr s \<Rightarrow> Inr (Some s))"
proof (cases "segment new_CPUSet r")
  case (Inl e)
  with assms show ?thesis by (simp add: toCPUSet_def Split_no_sep)
next
  case (Inr s)
  have "length new_CPUSet = cpuSetSize" by (simp add: new_CPUSet_def)
  from segment_Inr [OF Inr this] have "cpus s \<noteq> {}" by auto
  with Inr assms show ?thesis by (simp add: toCPUSet_def Split_no_sep Count_0_cpus)
qed

lemma decimal_ends: "decimal v \<Longrightarrow> v \<noteq> [] \<and> isDigit (hd v) \<and> isDigit (last v)"
  by (auto simp: decimal_def)

lemma toCPUSet_scalar:
  assumes "decimal v"
  shows "toCPUSet v =
    (case toInt v of Inl err \<Rightarrow> Inl err | Inr val \<Rightarrow> Inr (Some (CPUSet_Set new_CPUSet val)))"
proof -
  from assms have "TrimSpace v = v" using decimal_ends TrimSpace_digit_ends by blast
  moreover from assms have "Cut v (CHR ''-'') = None"
    by (simp add: Cut_None decimal_no_minus)
  ultimately show ?thesis
    using assms toCPUSet_one_segment [of v] decimal_no_comma [of v] decimal_ends [of v]
    by (simp add: segment_scalar split: sum.splits)
qed

lemma toCPUSet_range:
  assumes "decimal r0" and "decimal r1"
    and "toInt r0 = Inr a" and "toInt r1 = Inr b"
  shows "toCPUSet (r0 @ CHR ''-'' # r1) =
    (if a > b then Inl (InvalidRange (r0 @ CHR ''-'' # r1))
     else Inr (Some (set_range new_CPUSet a b)))"
proof -
  let ?r = "r0 @ CHR ''-'' # r1"
  from assms have e: "r0 \<noteq> []" "isDigit (hd r0)" "r1 \<noteq> []" "isDigit (last r1)"
    using decimal_ends by auto
  then have "hd ?r = hd r0" "last ?r = last r1" by auto
  with e have t: "TrimSpace ?r = ?r" using TrimSpace_digit_ends [of ?r] by simp
  have c: "CHR '','' \<notin> set ?r"
    using assms decimal_no_comma by auto
  have "Cut ?r (CHR ''-'') = Some (r0, r1)"
    using assms(1) by (simp add: Cut_append decimal_no_minus)
  then have "segment new_CPUSet ?r =
      (if a > b then Inl (InvalidRange ?r) else Inr (set_range new_CPUSet a b))"
    using assms(3,4) by (rule segment_range)
  then show ?thesis
    using toCPUSet_one_segment [OF _ c t] by simp
qed

lemma IsSet_cpus: "CPUSet_IsSet s i \<longleftrightarrow> i \<in> cpus s"
  by (simp add: cpus_def)

lemma div64_less: "n < 1024 \<Longrightarrow> n div 64 < (16::nat)"
  by (rule less_mult_imp_div_less) simp

lemma cpus_Set_new: "n < maxCPU \<Longrightarrow> cpus (CPUSet_Set new_CPUSet n) = {n}"
  by (simp add: cpus_Set cpus_new length_new maxCPU_1024 div64_less)

lemma cpus_set_range_new: "b < maxCPU \<Longrightarrow> cpus (set_range new_CPUSet a b) = {a..b}"
  by (simp add: cpus_set_range cpus_new length_new maxCPU_1024 div64_less)

text \<open>
  Claim C4, as amended. Every integer of a piece goes through \<open>toInt\<close>. For a text
  \<open>v\<close> of decimal digits that denotes the number \<open>n\<close>: if \<open>n < maxCPU\<close> the value
  is accepted, and \<open>toCPUSet v\<close> is the set that holds the CPU \<open>n\<close> alone; if
  \<open>maxCPU \<le> n < 2 ^ 32\<close> it is rejected with the error that names the limit
  \<open>maxCPU - 1\<close>; if \<open>2 ^ 32 \<le> n\<close> it is rejected with the range error of
  \<^verbatim>\<open>strconv.ParseUint\<close>. A piece, scalar or range, fails with the error of the first of
  its values that \<open>toInt\<close> rejects. Here \<open>maxCPU\<close> is the number of bits of the set,
  8 times its size in bytes, which is 1024: the value \<open>maxCPU\<close> fails and the value
  \<open>maxCPU - 1\<close>, the largest CPU of the set, succeeds.
\<close>

theorem toCPUSet_limit:
  assumes "decimal v"
  shows "(decimal_value v < maxCPU \<longrightarrow>
            toInt v = Inr (decimal_value v) \<and>
            (\<exists>s. toCPUSet v = Inr (Some s) \<and> (\<forall>i. CPUSet_IsSet s i \<longleftrightarrow> i = decimal_value v)))
       \<and> (maxCPU \<le> decimal_value v \<and> decimal_value v < 2 ^ 32 \<longrightarrow>
            toInt v = Inl (ValuesLargerThan (maxCPU - 1)) \<and>
            toCPUSet v = Inl (ValuesLargerThan (maxCPU - 1)))
       \<and> (2 ^ 32 \<le> decimal_value v \<longrightarrow>
            toInt v = Inl (ErrRange v) \<and> toCPUSet v = Inl (ErrRange v))
       \<and> (\<forall>s r e. Cut r (CHR ''-'') = None \<and> toInt r = Inl e \<longrightarrow> segment s r = Inl e)
       \<and> (\<forall>s r r0 r1 e. Cut r (CHR ''-'') = Some (r0, r1) \<and> toInt r0 = Inl e \<longrightarrow>
            segment s r = Inl e)
       \<and> (\<forall>s r r0 r1 a e. Cut r (CHR ''-'') = Some (r0, r1) \<and> toInt r0 = Inr a \<and>
            toInt r1 = Inl e \<longrightarrow> segment s r = Inl e)
       \<and> maxCPU = 8 * sizeof_CPUSet \<and> maxCPU = 1024"
proof -
  have t: "toInt v = (if decimal_value v < maxCPU then Inr (decimal_value v)
              else if decimal_value v \<le> maxVal then Inl (ValuesLargerThan (maxCPU - 1))
              else Inl (ErrRange v))"
    using assms by (rule toInt_decimal)
  have c: "toCPUSet v =
    (case toInt v of Inl err \<Rightarrow> Inl err | Inr val \<Rightarrow> Inr (Some (CPUSet_Set new_CPUSet val)))"
    using assms by (rule toCPUSet_scalar)
  have m: "maxCPU = 1024" by (rule maxCPU_1024)
  have 1: "decimal_value v < maxCPU \<longrightarrow>
            toInt v = Inr (decimal_value v) \<and>
            (\<exists>s. toCPUSet v = Inr (Some s) \<and> (\<forall>i. CPUSet_IsSet s i \<longleftrightarrow> i = decimal_value v))"
    using t c by (auto simp: IsSet_cpus cpus_Set_new)
  have 2: "maxCPU \<le> decimal_value v \<and> decimal_value v < 2 ^ 32 \<longrightarrow>
            toInt v = Inl (ValuesLargerThan (maxCPU - 1)) \<and>
            toCPUSet v = Inl (ValuesLargerThan (maxCPU - 1))"
    using t c by (auto simp: maxVal_def)
  have 3: "2 ^ 32 \<le> decimal_value v \<longrightarrow>
            toInt v = Inl (ErrRange v) \<and> toCPUSet v = Inl (ErrRange v)"
    using t c m by (auto simp: maxVal_def)
  have 4: "\<forall>s r e. Cut r (CHR ''-'') = None \<and> toInt r = Inl e \<longrightarrow> segment s r = Inl e"
    by (simp add: segment_scalar)
  have 5: "\<forall>s r r0 r1 e. Cut r (CHR ''-'') = Some (r0, r1) \<and> toInt r0 = Inl e \<longrightarrow>
            segment s r = Inl e"
    by (simp add: segment_range_bad_start)
  have 6: "\<forall>s r r0 r1 a e. Cut r (CHR ''-'') = Some (r0, r1) \<and> toInt r0 = Inr a \<and>
            toInt r1 = Inl e \<longrightarrow> segment s r = Inl e"
    using segment_range_bad_end by blast
  have 7: "maxCPU = 8 * sizeof_CPUSet" by (simp add: maxCPU_def)
  from 1 2 3 4 5 6 7 m show ?thesis by blast
qed

lemma decimal_1023: "decimal ''1023'' \<and> decimal_value ''1023'' = 1023"
  by (simp add: decimal_def isDigit_def decimal_value_def)

lemma decimal_1024: "decimal ''1024'' \<and> decimal_value ''1024'' = 1024"
  by (simp add: decimal_def isDigit_def decimal_value_def)

lemma decimal_2_32: "decimal ''4294967296'' \<and> decimal_value ''4294967296'' = 4294967296"
  by (simp add: decimal_def isDigit_def decimal_value_def)

text \<open>
  The claim C4 as it is written also says that a value exactly at the maximum, which it
  takes to be the bit width of the set, is accepted, and that every value at or above
  it is rejected with an error naming the limit. The value 1024 is rejected, and the
  rejection of \<open>2 ^ 32\<close> does not name the limit.
\<close>

theorem toCPUSet_maximum_rejected:
  "maxCPU = 1024
   \<and> toCPUSet ''1024'' = Inl (ValuesLargerThan 1023)
   \<and> toCPUSet ''4294967296'' = Inl (ErrRange ''4294967296'')"
proof -
  have "toCPUSet ''1024'' = Inl (ValuesLargerThan 1023)"
    using decimal_1024 toCPUSet_scalar [of "''1024''"] toInt_decimal [of "''1024''"]
    by (simp add: maxCPU_1024 maxVal_def)
  moreover have "toCPUSet ''4294967296'' = Inl (ErrRange ''4294967296'')"
    using decimal_2_32 toCPUSet_scalar [of "''4294967296''"] toInt_decimal [of "''4294967296''"]
    by (simp add: maxCPU_1024 maxVal_def)
  ultimately show ?thesis by (simp add: maxCPU_1024)
qed

text \<open>The values 1023, 1024 and \<open>2 ^ 32\<close>.\<close>

theorem toCPUSet_limit_witness:
  "decimal ''1023'' \<and> decimal ''1024'' \<and> decimal ''4294967296''
   \<and> (\<exists>s. toCPUSet ''1023'' = Inr (Some s) \<and> CPUSet_IsSet s 1023 \<and> \<not> CPUSet_IsSet s 1022)
   \<and> toCPUSet ''1024'' = Inl (ValuesLargerThan 1023)
   \<and> toInt ''4294967296'' = Inl (ErrRange ''4294967296'')"
proof -
  have d1: "decimal ''1023''" and v1: "decimal_value ''1023'' = 1023"
    using decimal_1023 by simp_all
  have d2: "decimal ''1024''" and v2: "decimal_value ''1024'' = 1024"
    using decimal_1024 by simp_all
  have d3: "decimal ''4294967296''" and v3: "decimal_value ''4294967296'' = 4294967296"
    using decimal_2_32 by simp_all
  from toCPUSet_limit [OF d1] v1
  have "\<exists>s. toCPUSet ''1023'' = Inr (Some s) \<and> (\<forall>i. CPUSet_IsSet s i \<longleftrightarrow> i = 1023)"
    by (simp add: maxCPU_1024)
  then have a: "\<exists>s. toCPUSet ''1023'' = Inr (Some s) \<and> CPUSet_IsSet s 1023 \<and> \<not> CPUSet_IsSet s 1022"
    by auto
  from toCPUSet_limit [OF d2] v2
  have b: "toCPUSet ''1024'' = Inl (ValuesLargerThan 1023)"
    by (simp add: maxCPU_1024)
  from toCPUSet_limit [OF d3] v3
  have c: "toInt ''4294967296'' = Inl (ErrRange ''4294967296'')"
    by simp
  from d1 d2 d3 a b c show ?thesis by blast
qed

text \<open>
  Claim C5. The empty text gives no set and no error, and it is the only text that does.
  A text that is not empty and whose pieces between commas are all empty after trimming
  fails with \<open>NoCPUsFound\<close>, which carries the text; and this error arises in no other
  way, as every accepted piece that is not blank sets a bit. Blank pieces are skipped:
  the loop over the pieces gives the same result as the loop over the pieces that are
  not blank.
\<close>

theorem toCPUSet_empty_and_blank:
  "toCPUSet [] = Inr None
   \<and> (str \<noteq> [] \<longrightarrow> toCPUSet str \<noteq> Inr None)
   \<and> (str \<noteq> [] \<and> (\<forall>r\<in>set (Split str (CHR '','')). TrimSpace r = []) \<longrightarrow>
        toCPUSet str = Inl (NoCPUsFound str))
   \<and> (\<forall>x. toCPUSet str = Inl (NoCPUsFound x) \<longrightarrow>
        x = str \<and> str \<noteq> [] \<and> (\<forall>r\<in>set (Split str (CHR '','')). TrimSpace r = []))
   \<and> (\<forall>rs s. segments_loop rs s = segments_loop (filter (\<lambda>r. TrimSpace r \<noteq> []) rs) s)"
proof -
  have 1: "toCPUSet [] = Inr None" by (simp add: toCPUSet_def)
  have 2: "str \<noteq> [] \<longrightarrow> toCPUSet str \<noteq> Inr None" by (simp add: toCPUSet_Inr_None)
  have 3: "str \<noteq> [] \<and> (\<forall>r\<in>set (Split str (CHR '','')). TrimSpace r = []) \<longrightarrow>
        toCPUSet str = Inl (NoCPUsFound str)"
    using toCPUSet_NoCPUs [of str] by blast
  have 4: "\<forall>x. toCPUSet str = Inl (NoCPUsFound x) \<longrightarrow>
        x = str \<and> str \<noteq> [] \<and> (\<forall>r\<in>set (Split str (CHR '','')). TrimSpace r = [])"
  proof (intro allI impI)
    fix x assume a: "toCPUSet str = Inl (NoCPUsFound x)"
    then have n: "str \<noteq> []" by (auto simp: toCPUSet_def)
    with a have "x = str"
      using segments_loop_Inl_not_NoCPUs
      by (auto simp: toCPUSet_def split: sum.splits if_splits)
    with a n toCPUSet_NoCPUs [of str]
    show "x = str \<and> str \<noteq> [] \<and> (\<forall>r\<in>set (Split str (CHR '','')). TrimSpace r = [])"
      by blast
  qed
  have 5: "\<forall>rs s. segments_loop rs s = segments_loop (filter (\<lambda>r. TrimSpace r \<noteq> []) rs) s"
    using segments_loop_skip by blast
  from 1 2 3 4 5 show ?thesis by blast
qed

lemma leadingSpace_blank: "leadingSpace '' '' = 1"
  by (simp add: leadingSpace_def spaceRunes_def)

lemma TrimSpace_blank: "TrimSpace '' '' = []"
proof -
  have "leadingSpace [] = 0" by (simp add: leadingSpace_def spaceRunes_def)
  then have l: "TrimLeft [] = []" by (simp add: TrimLeft.simps [of "[]"])
  then have "TrimLeft '' '' = []"
    by (simp add: TrimLeft.simps [of "'' ''"] leadingSpace_blank)
  then show ?thesis using TrimSpace_Nil l by (simp add: TrimSpace_def)
qed

lemma Split_blank_comma_blank: "Split '' , '' (CHR '','') = ['' '', '' '']"
  by simp

text \<open>The text of a blank, a comma and a blank.\<close>

theorem toCPUSet_empty_and_blank_witness:
  "Split '' , '' (CHR '','') = ['' '', '' ''] \<and> TrimSpace '' '' = []
   \<and> toCPUSet '' , '' = Inl (NoCPUsFound '' , '')"
proof -
  have h: "'' , '' \<noteq> [] \<and> (\<forall>r\<in>set (Split '' , '' (CHR '','')). TrimSpace r = [])"
    by (simp add: TrimSpace_blank)
  with toCPUSet_empty_and_blank [of "'' , ''"]
  have "toCPUSet '' , '' = Inl (NoCPUsFound '' , '')" by blast
  then show ?thesis by (simp add: TrimSpace_blank)
qed

text \<open>
  Claim C8. \<open>ConvertCPUAffinity\<close> gives no result and no error for an absent input and
  for two empty texts. An error of the initial text is wrapped as \<open>BadInitial\<close>; with
  an initial text that is accepted, an error of the final text is wrapped as
  \<open>BadFinal\<close>. If both texts are accepted and one of them is not empty, the result holds
  the two sets, each built from its own text. The result is never a structure with
  both sets absent.
\<close>

theorem ConvertCPUAffinity_cases:
  "ConvertCPUAffinity None = Inr None
   \<and> ConvertCPUAffinity (Some \<lparr> spec_Initial = [], spec_Final = [] \<rparr>) = Inr None
   \<and> (\<forall>e. toCPUSet (spec_Initial a) = Inl e \<longrightarrow>
        ConvertCPUAffinity (Some a) = Inl (BadInitial e))
   \<and> (\<forall>i e. toCPUSet (spec_Initial a) = Inr i \<and> toCPUSet (spec_Final a) = Inl e \<longrightarrow>
        ConvertCPUAffinity (Some a) = Inl (BadFinal e))
   \<and> (\<forall>i f. toCPUSet (spec_Initial a) = Inr i \<and> toCPUSet (spec_Final a) = Inr f \<and>
        (spec_Initial a \<noteq> [] \<or> spec_Final a \<noteq> []) \<longrightarrow>
        ConvertCPUAffinity (Some a) = Inr (Some \<lparr> Initial = i, Final = f \<rparr>))
   \<and> ConvertCPUAffinity sa \<noteq> Inr (Some \<lparr> Initial = None, Final = None \<rparr>)"
proof -
  have 1: "ConvertCPUAffinity None = Inr None" by (simp add: ConvertCPUAffinity_def)
  have 2: "ConvertCPUAffinity (Some \<lparr> spec_Initial = [], spec_Final = [] \<rparr>) = Inr None"
    by (simp add: ConvertCPUAffinity_def toCPUSet_def)
  have 3: "\<forall>e. toCPUSet (spec_Initial a) = Inl e \<longrightarrow>
        ConvertCPUAffinity (Some a) = Inl (BadInitial e)"
    by (simp add: ConvertCPUAffinity_def)
  have 4: "\<forall>i e. toCPUSet (spec_Initial a) = Inr i \<and> toCPUSet (spec_Final a) = Inl e \<longrightarrow>
        ConvertCPUAffinity (Some a) = Inl (BadFinal e)"
    by (simp add: ConvertCPUAffinity_def)
  have 5: "\<forall>i f. toCPUSet (spec_Initial a) = Inr i \<and> toCPUSet (spec_Final a) = Inr f \<and>
        (spec_Initial a \<noteq> [] \<or> spec_Final a \<noteq> []) \<longrightarrow>
        ConvertCPUAffinity (Some a) = Inr (Some \<lparr> Initial = i, Final = f \<rparr>)"
    using toCPUSet_Inr_None [of "spec_Initial a"] toCPUSet_Inr_None [of "spec_Final a"]
    by (auto simp: ConvertCPUAffinity_def)
  have 6: "ConvertCPUAffinity sa \<noteq> Inr (Some \<lparr> Initial = None, Final = None \<rparr>)"
    by (auto simp: ConvertCPUAffinity_def split: option.splits sum.splits)
  from 1 2 3 4 5 6 show ?thesis by blast
qed

text \<open>
  Claim C9. Let \<open>r\<close> be a range piece: it is cut at its first \<open>-\<close> into two texts
  that \<open>toInt\<close> accepts as \<open>a\<close> and \<open>b\<close>. If \<open>a > b\<close> the piece, and the text
  \<open>r\<close> as a whole, fail with \<open>InvalidRange r\<close>. Otherwise the piece adds exactly the
  CPUs from \<open>a\<close> to \<open>b\<close> to a set and keeps the others, and \<open>toCPUSet r\<close> is the set
  of exactly the CPUs from \<open>a\<close> to \<open>b\<close>. If \<open>a = b\<close> the piece acts as the scalar
  piece of its start does, and \<open>toCPUSet\<close> gives the same result for both. The result
  of \<open>toCPUSet\<close> depends on the text alone: it builds a new set at each call and reads
  nothing else.
\<close>

theorem toCPUSet_range_segment:
  assumes "Cut r (CHR ''-'') = Some (r0, r1)" and "toInt r0 = Inr a" and "toInt r1 = Inr b"
  shows "(a > b \<longrightarrow> (\<forall>s. segment s r = Inl (InvalidRange r)) \<and> toCPUSet r = Inl (InvalidRange r))
       \<and> (a \<le> b \<longrightarrow>
            (\<forall>s. length s = cpuSetSize \<longrightarrow>
               (\<exists>s'. segment s r = Inr s' \<and>
                  (\<forall>i. CPUSet_IsSet s' i \<longleftrightarrow> CPUSet_IsSet s i \<or> (a \<le> i \<and> i \<le> b)))) \<and>
            (\<exists>t. toCPUSet r = Inr (Some t) \<and> (\<forall>i. CPUSet_IsSet t i \<longleftrightarrow> a \<le> i \<and> i \<le> b)))
       \<and> (a = b \<longrightarrow> (\<forall>s. segment s r = segment s r0) \<and> toCPUSet r = toCPUSet r0)
       \<and> (\<forall>str x y. toCPUSet str = x \<and> toCPUSet str = y \<longrightarrow> x = y)"
proof -
  from assms(1) have r: "r = r0 @ CHR ''-'' # r1" using Cut_Some by blast
  from assms(2) have d0: "decimal r0" and a: "a < maxCPU" using toInt_Inr by blast+
  from assms(3) have d1: "decimal r1" and b: "b < maxCPU" using toInt_Inr by blast+
  have seg: "segment s r = (if a > b then Inl (InvalidRange r) else Inr (set_range s a b))" for s
    using assms by (rule segment_range)
  have whole: "toCPUSet r =
    (if a > b then Inl (InvalidRange r) else Inr (Some (set_range new_CPUSet a b)))"
    unfolding r using d0 d1 assms(2,3) by (rule toCPUSet_range)
  have 1: "a > b \<longrightarrow> (\<forall>s. segment s r = Inl (InvalidRange r)) \<and> toCPUSet r = Inl (InvalidRange r)"
    using seg whole by simp
  have 2: "a \<le> b \<longrightarrow>
            (\<forall>s. length s = cpuSetSize \<longrightarrow>
               (\<exists>s'. segment s r = Inr s' \<and>
                  (\<forall>i. CPUSet_IsSet s' i \<longleftrightarrow> CPUSet_IsSet s i \<or> (a \<le> i \<and> i \<le> b)))) \<and>
            (\<exists>t. toCPUSet r = Inr (Some t) \<and> (\<forall>i. CPUSet_IsSet t i \<longleftrightarrow> a \<le> i \<and> i \<le> b))"
  proof
    assume le: "a \<le> b"
    have "\<exists>s'. segment s r = Inr s' \<and>
                  (\<forall>i. CPUSet_IsSet s' i \<longleftrightarrow> CPUSet_IsSet s i \<or> (a \<le> i \<and> i \<le> b))"
      if "length s = cpuSetSize" for s
    proof -
      from b that have "b div 64 < length s"
        by (simp add: maxCPU_1024 cpuSetSize_def div64_less)
      then have "cpus (set_range s a b) = cpus s \<union> {a..b}" by (rule cpus_set_range)
      with seg [of s] le show ?thesis by (auto simp: IsSet_cpus)
    qed
    moreover have "\<exists>t. toCPUSet r = Inr (Some t) \<and> (\<forall>i. CPUSet_IsSet t i \<longleftrightarrow> a \<le> i \<and> i \<le> b)"
      using whole le cpus_set_range_new [OF b, of a] by (auto simp: IsSet_cpus)
    ultimately show "(\<forall>s. length s = cpuSetSize \<longrightarrow>
               (\<exists>s'. segment s r = Inr s' \<and>
                  (\<forall>i. CPUSet_IsSet s' i \<longleftrightarrow> CPUSet_IsSet s i \<or> (a \<le> i \<and> i \<le> b)))) \<and>
            (\<exists>t. toCPUSet r = Inr (Some t) \<and> (\<forall>i. CPUSet_IsSet t i \<longleftrightarrow> a \<le> i \<and> i \<le> b))"
      by blast
  qed
  have 3: "a = b \<longrightarrow> (\<forall>s. segment s r = segment s r0) \<and> toCPUSet r = toCPUSet r0"
  proof
    assume e: "a = b"
    have "Cut r0 (CHR ''-'') = None" using d0 by (simp add: Cut_None decimal_no_minus)
    then have "segment s r0 = Inr (CPUSet_Set s a)" for s
      using assms(2) by (simp add: segment_scalar)
    moreover have "toCPUSet r0 = Inr (Some (CPUSet_Set new_CPUSet a))"
      using toCPUSet_scalar [OF d0] assms(2) by simp
    ultimately show "(\<forall>s. segment s r = segment s r0) \<and> toCPUSet r = toCPUSet r0"
      using seg whole e by (simp add: set_range_single)
  qed
  from 1 2 3 show ?thesis by blast
qed

lemma toInt_2: "toInt ''2'' = Inr 2" and toInt_5: "toInt ''5'' = Inr 5"
  and toInt_0: "toInt ''0'' = Inr 0" and toInt_3: "toInt ''3'' = Inr 3"
  by (simp_all add: toInt_def ParseUint_def maxVal_def maxCPU_1024)

text \<open>The texts \<open>5-2\<close>, \<open>0-3\<close> and \<open>2-2\<close>.\<close>

theorem toCPUSet_range_segment_witness:
  "Cut ''5-2'' (CHR ''-'') = Some (''5'', ''2'') \<and> toCPUSet ''5-2'' = Inl (InvalidRange ''5-2'')
   \<and> Cut ''0-3'' (CHR ''-'') = Some (''0'', ''3'')
   \<and> (\<exists>t. toCPUSet ''0-3'' = Inr (Some t) \<and> (\<forall>i. CPUSet_IsSet t i \<longleftrightarrow> i \<le> 3))
   \<and> Cut ''2-2'' (CHR ''-'') = Some (''2'', ''2'') \<and> toCPUSet ''2-2'' = toCPUSet ''2''"
proof -
  have c1: "Cut ''5-2'' (CHR ''-'') = Some (''5'', ''2'')" by simp
  have c2: "Cut ''0-3'' (CHR ''-'') = Some (''0'', ''3'')" by simp
  have c3: "Cut ''2-2'' (CHR ''-'') = Some (''2'', ''2'')" by simp
  from toCPUSet_range_segment [OF c1 toInt_5 toInt_2]
  have 1: "toCPUSet ''5-2'' = Inl (InvalidRange ''5-2'')" by simp
  from toCPUSet_range_segment [OF c2 toInt_0 toInt_3]
  have 2: "\<exists>t. toCPUSet ''0-3'' = Inr (Some t) \<and> (\<forall>i. CPUSet_IsSet t i \<longleftrightarrow> i \<le> 3)" by simp
  from toCPUSet_range_segment [OF c3 toInt_2 toInt_2]
  have 3: "toCPUSet ''2-2'' = toCPUSet ''2''" by simp
  from c1 c2 c3 1 2 3 show ?thesis by blast
qed

lemma toCPUSet_5_2: "toCPUSet ''5-2'' = Inl (InvalidRange ''5-2'')"
  using toCPUSet_range [of "''5''" "''2''" 5 2] toInt_5 toInt_2 toInt_Inr by auto

lemma toCPUSet_2: "toCPUSet ''2'' = Inr (Some (CPUSet_Set new_CPUSet 2))"
  using toCPUSet_scalar [of "''2''"] toInt_2 toInt_Inr by auto

lemma toCPUSet_1024: "toCPUSet ''1024'' = Inl (ValuesLargerThan 1023)"
  using decimal_1024 toCPUSet_scalar [of "''1024''"] toInt_decimal [of "''1024''"]
  by (simp add: maxCPU_1024 maxVal_def)

text \<open>A rejected initial text, a rejected final text, and an initial text alone.\<close>

theorem ConvertCPUAffinity_cases_witness:
  "ConvertCPUAffinity (Some \<lparr> spec_Initial = ''1024'', spec_Final = ''5-2'' \<rparr>)
     = Inl (BadInitial (ValuesLargerThan 1023))
   \<and> ConvertCPUAffinity (Some \<lparr> spec_Initial = ''2'', spec_Final = ''5-2'' \<rparr>)
     = Inl (BadFinal (InvalidRange ''5-2''))
   \<and> ConvertCPUAffinity (Some \<lparr> spec_Initial = ''2'', spec_Final = [] \<rparr>)
     = Inr (Some \<lparr> Initial = Some (CPUSet_Set new_CPUSet 2), Final = None \<rparr>)"
proof -
  have e: "toCPUSet [] = Inr None" by (simp add: toCPUSet_def)
  from ConvertCPUAffinity_cases [of "\<lparr> spec_Initial = ''1024'', spec_Final = ''5-2'' \<rparr>"]
  have 1: "ConvertCPUAffinity (Some \<lparr> spec_Initial = ''1024'', spec_Final = ''5-2'' \<rparr>)
     = Inl (BadInitial (ValuesLargerThan 1023))"
    using toCPUSet_1024 by simp
  from ConvertCPUAffinity_cases [of "\<lparr> spec_Initial = ''2'', spec_Final = ''5-2'' \<rparr>"]
  have 2: "ConvertCPUAffinity (Some \<lparr> spec_Initial = ''2'', spec_Final = ''5-2'' \<rparr>)
     = Inl (BadFinal (InvalidRange ''5-2''))"
    using toCPUSet_2 toCPUSet_5_2 by simp
  from ConvertCPUAffinity_cases [of "\<lparr> spec_Initial = ''2'', spec_Final = [] \<rparr>"]
  have 3: "ConvertCPUAffinity (Some \<lparr> spec_Initial = ''2'', spec_Final = [] \<rparr>)
     = Inr (Some \<lparr> Initial = Some (CPUSet_Set new_CPUSet 2), Final = None \<rparr>)"
    using toCPUSet_2 e by simp
  from 1 2 3 show ?thesis by blast
qed

end
